theory Spec2Isabelle
  imports Main
begin

section \<open>Data received from the backend (src/page.tsx, lines 6-24)\<close>

text \<open>
  The two interfaces of the source. Optional fields are options; JavaScript numbers that
  carry page numbers and counts are integers. The field \<open>id\<close> of \<open>Article\<close> is written
  \<open>id'\<close>, since \<open>id\<close> is the identity function of HOL.
\<close>

record Article =
  id' :: string
  title :: string
  summary :: string
  author :: "string option"
  publishDate :: string
  category :: string
  source :: string
  url :: string
  imageUrl :: "string option"
  readingTime :: "int option"

record Stats =
  totalArticles :: int
  totalSources :: int
  activeSources :: int
  categoryCounts :: "(string \<times> int) list"

section \<open>The component state (lines 27-35)\<close>

text \<open>One field per \<open>useState\<close> cell of \<open>HomePage\<close>, with the initial values of the source.\<close>

record page_state =
  articles :: "Article list"
  stats :: "Stats option"
  categories :: "string list"
  selectedCategory :: string
  loading :: bool
  refreshing :: bool
  currentPage :: int
  totalPages :: int
  error :: string

definition initial_state :: page_state where
  "initial_state =
     \<lparr>articles = [], stats = None, categories = [], selectedCategory = [],
      loading = True, refreshing = False, currentPage = 1, totalPages = 1, error = []\<rparr>"

section \<open>Network calls and their outcomes\<close>

text \<open>
  The four calls of \<open>fetch\<close>. For \<open>/api/articles\<close> the query carries \<open>page\<close>, the
  literal \<open>limit\<close> 12 and, only when the category string is truthy, \<open>category\<close>
  (lines 41-48).
\<close>

datatype request =
    GetArticles int string "string option"
  | GetStats
  | GetCategories
  | PostRefresh

text \<open>
  What the two awaits \<open>await fetch(...)\<close> and \<open>await response.json()\<close> can deliver. No
  state is read or written between them, so they are one suspension point:
  \<^item> \<open>Rejected\<close>: one of them threw (transport failure, body that is not JSON);
  \<^item> \<open>Status_ok d\<close>: \<open>response.ok\<close> holds and the body is \<open>d\<close>;
  \<^item> \<open>Status_not_ok e\<close>: \<open>response.ok\<close> is false and \<open>data.error\<close> is \<open>e\<close>
    (\<open>None\<close> when the body has no such field).
\<close>

datatype 'a outcome = Rejected | Status_ok 'a | Status_not_ok "string option"

text \<open>
  The body of a successful \<open>/api/articles\<close> response. \<open>data.pagination\<close> is optional in
  the model because reading \<open>data.pagination.totalPages\<close> of a body without it throws
  after \<open>setArticles\<close> has run (lines 54-55); bodies are otherwise of their declared shape.
\<close>

datatype pagination = Pagination (pagination_currentPage: int) (pagination_totalPages: int)

datatype articles_body =
  Articles_body (body_articles: "Article list") (body_pagination: "pagination option")

datatype response =
    Articles_response "articles_body outcome"
  | Stats_response "Stats outcome"
  | Categories_response "string list outcome"
  | Refresh_response "int outcome"

section \<open>Suspended async functions\<close>

text \<open>
  An async function runs synchronously up to its first \<open>await\<close> and is then suspended
  until the awaited call settles. A suspended function is a task. \<open>resume\<close> says who
  awaits the promise of \<open>fetchArticles\<close> or \<open>fetchStats\<close>: nobody (the call sites of lines
  121, 127, 182-183 drop the promise), or \<open>handleRefresh\<close> (lines 103-104), which holds
  \<open>data.articlesAdded\<close> for its final alert. \<open>Await_refresh\<close> holds the values of
  \<open>currentPage\<close> and \<open>selectedCategory\<close> that the closure \<open>handleRefresh\<close> was created
  with: they are constants of the render whose handler was invoked, and line 103 reads
  them after the await.
\<close>

datatype resume = Detached | Resume_handleRefresh int

datatype task =
    Await_articles resume
  | Await_stats resume
  | Await_categories
  | Await_refresh int string

text \<open>
  The world: the component state, the render that is committed, the log of network
  calls in issue order (a call is identified by its position in the log), the suspended
  tasks keyed by the call they wait for, and the two output channels \<open>alert\<close> and
  \<open>console.error\<close>.

  \<open>ui\<close> holds the \<open>useState\<close> cells with every \<open>set...\<close> call applied. \<open>rendered\<close> holds
  the values of the cells in the last render React has committed: the JSX on the screen
  (what is rendered, what is disabled, the value the select shows) and the constants
  \<open>currentPage\<close> and \<open>selectedCategory\<close> inside the handlers attached to it are those
  values. A \<open>set...\<close> call changes \<open>ui\<close> at once and \<open>rendered\<close> only at the next
  commit, so events that arrive before that commit meet the old render.
\<close>

record world =
  ui :: page_state
  rendered :: page_state
  issued :: "request list"
  pending :: "(nat \<times> task) list"
  alerts :: "string list"
  console :: "string list"

definition world0 :: world where
  "world0 =
     \<lparr>ui = initial_state, rendered = initial_state, issued = [], pending = [], alerts = [],
      console = []\<rparr>"

definition issue :: "request \<Rightarrow> task \<Rightarrow> world \<Rightarrow> world" where
  "issue r t w = w\<lparr>issued := issued w @ [r], pending := (length (issued w), t) # pending w\<rparr>"

section \<open>JavaScript helpers\<close>

text \<open>\<open>x || d\<close> on an optional string: \<open>undefined\<close> and the empty string are falsy.\<close>

definition js_or :: "string option \<Rightarrow> string \<Rightarrow> string" where
  "js_or x d = (case x of None \<Rightarrow> d | Some s \<Rightarrow> if s = [] then d else s)"

definition truthy :: "string option \<Rightarrow> bool" where
  "truthy x = (case x of None \<Rightarrow> False | Some s \<Rightarrow> s \<noteq> [])"

text \<open>A value inside a template literal: \<open>undefined\<close> prints as the word.\<close>

definition template_string :: "string option \<Rightarrow> string" where
  "template_string x = (case x of None \<Rightarrow> ''undefined'' | Some s \<Rightarrow> s)"

definition digit_char :: "nat \<Rightarrow> char" where
  "digit_char d = char_of (48 + d)"

function show_nat :: "nat \<Rightarrow> string" where
  "show_nat n = (if n < 10 then [digit_char n] else show_nat (n div 10) @ [digit_char (n mod 10)])"
  by pat_completeness auto
termination
  by (relation "measure (\<lambda>n. n)") auto

declare show_nat.simps [simp del]

definition show_int :: "int \<Rightarrow> string" where
  "show_int i = (if i < 0 then CHR ''-'' # show_nat (nat (- i)) else show_nat (nat i))"

section \<open>fetchArticles (lines 38-67)\<close>

definition category_param :: "string \<Rightarrow> string option" where
  "category_param c = (if c \<noteq> [] then Some c else None)"

text \<open>Up to the await of line 50: \<open>setLoading(true)\<close> and the call.\<close>

definition fetchArticles :: "int \<Rightarrow> string \<Rightarrow> resume \<Rightarrow> world \<Rightarrow> world" where
  "fetchArticles page c k w =
     issue (GetArticles page ''12'' (category_param c)) (Await_articles k)
       (w\<lparr>ui := (ui w)\<lparr>loading := True\<rparr>\<rparr>)"

text \<open>From line 53 to the end of the function, \<open>finally\<close> included.\<close>

definition fetchArticles_settled :: "articles_body outcome \<Rightarrow> world \<Rightarrow> world" where
  "fetchArticles_settled r w =
     (case r of
        Status_ok d \<Rightarrow>
          (case body_pagination d of
             Some pg \<Rightarrow>
               w\<lparr>ui := (ui w)\<lparr>articles := body_articles d,
                                totalPages := pagination_totalPages pg,
                                currentPage := pagination_currentPage pg,
                                error := [],
                                loading := False\<rparr>\<rparr>
           | None \<Rightarrow>
               w\<lparr>ui := (ui w)\<lparr>articles := body_articles d,
                                error := ''Nettverksfeil ved henting av artikler'',
                                loading := False\<rparr>,
                 console := console w @ [''Error fetching articles:'']\<rparr>)
      | Status_not_ok e \<Rightarrow>
          w\<lparr>ui := (ui w)\<lparr>error := js_or e ''Kunne ikke hente artikler'',
                           loading := False\<rparr>\<rparr>
      | Rejected \<Rightarrow>
          w\<lparr>ui := (ui w)\<lparr>error := ''Nettverksfeil ved henting av artikler'',
                           loading := False\<rparr>,
            console := console w @ [''Error fetching articles:'']\<rparr>)"

section \<open>fetchStats (lines 70-80) and fetchCategories (lines 83-93)\<close>

definition fetchStats :: "resume \<Rightarrow> world \<Rightarrow> world" where
  "fetchStats k w = issue GetStats (Await_stats k) w"

definition fetchStats_settled :: "Stats outcome \<Rightarrow> world \<Rightarrow> world" where
  "fetchStats_settled r w =
     (case r of
        Status_ok d \<Rightarrow> w\<lparr>ui := (ui w)\<lparr>stats := Some d\<rparr>\<rparr>
      | Status_not_ok e \<Rightarrow> w
      | Rejected \<Rightarrow> w\<lparr>console := console w @ [''Error fetching stats:'']\<rparr>)"

definition fetchCategories :: "world \<Rightarrow> world" where
  "fetchCategories w = issue GetCategories Await_categories w"

definition fetchCategories_settled :: "string list outcome \<Rightarrow> world \<Rightarrow> world" where
  "fetchCategories_settled r w =
     (case r of
        Status_ok d \<Rightarrow> w\<lparr>ui := (ui w)\<lparr>categories := d\<rparr>\<rparr>
      | Status_not_ok e \<Rightarrow> w
      | Rejected \<Rightarrow> w\<lparr>console := console w @ [''Error fetching categories:'']\<rparr>)"

section \<open>handleRefresh (lines 96-115)\<close>

text \<open>
  Up to the await of line 99. The handler tests nothing and reads nothing here, but the
  continuation of line 103 uses the \<open>currentPage\<close> and \<open>selectedCategory\<close> of the
  closure, which are those of the committed render, so the task stores them.
\<close>

definition handleRefresh :: "world \<Rightarrow> world" where
  "handleRefresh w =
     issue PostRefresh
       (Await_refresh (currentPage (rendered w)) (selectedCategory (rendered w)))
       (w\<lparr>ui := (ui w)\<lparr>refreshing := True\<rparr>\<rparr>)"

text \<open>Lines 105-114 once both reloads are through, and lines 107-114 on a failure.\<close>

definition handleRefresh_finish :: "string \<Rightarrow> world \<Rightarrow> world" where
  "handleRefresh_finish msg w =
     w\<lparr>alerts := alerts w @ [msg], ui := (ui w)\<lparr>refreshing := False\<rparr>\<rparr>"

text \<open>From line 102, with the closure's page \<open>p\<close> and category \<open>c\<close>.\<close>

definition handleRefresh_settled :: "int \<Rightarrow> string \<Rightarrow> int outcome \<Rightarrow> world \<Rightarrow> world" where
  "handleRefresh_settled p c r w =
     (case r of
        Status_ok n \<Rightarrow> fetchArticles p c (Resume_handleRefresh n) w
      | Status_not_ok e \<Rightarrow>
          handleRefresh_finish (''Oppdatering feilet: '' @ template_string e) w
      | Rejected \<Rightarrow>
          handleRefresh_finish ''Nettverksfeil under oppdatering''
            (w\<lparr>console := console w @ [''Error refreshing:'']\<rparr>))"

text \<open>
  What runs when the promise of \<open>fetchArticles\<close>, respectively \<open>fetchStats\<close>, resolves.
  Both functions catch every exception, so their promises never reject.
\<close>

definition after_fetchArticles :: "resume \<Rightarrow> world \<Rightarrow> world" where
  "after_fetchArticles k w =
     (case k of Detached \<Rightarrow> w | Resume_handleRefresh n \<Rightarrow> fetchStats (Resume_handleRefresh n) w)"

definition after_fetchStats :: "resume \<Rightarrow> world \<Rightarrow> world" where
  "after_fetchStats k w =
     (case k of
        Detached \<Rightarrow> w
      | Resume_handleRefresh n \<Rightarrow>
          handleRefresh_finish (''Suksess! Lagt til '' @ show_int n @ '' nye artikler.'') w)"

section \<open>handleCategoryChange (lines 118-122) and handlePageChange (lines 125-128)\<close>

definition handleCategoryChange :: "string \<Rightarrow> world \<Rightarrow> world" where
  "handleCategoryChange c w =
     fetchArticles 1 c Detached (w\<lparr>ui := (ui w)\<lparr>selectedCategory := c, currentPage := 1\<rparr>\<rparr>)"

text \<open>Line 127 reads the \<open>selectedCategory\<close> of the closure.\<close>

definition handlePageChange :: "int \<Rightarrow> world \<Rightarrow> world" where
  "handlePageChange page w =
     fetchArticles page (selectedCategory (rendered w)) Detached
       (w\<lparr>ui := (ui w)\<lparr>currentPage := page\<rparr>\<rparr>)"

section \<open>The event loop\<close>

text \<open>
  A call settles: its task is taken off the pending list and runs to its next await or
  to its end. A call that is not pending, or a response of another endpoint's shape, is
  not an event of the program and changes nothing.
\<close>

definition remove_task :: "nat \<Rightarrow> world \<Rightarrow> world" where
  "remove_task rid w = w\<lparr>pending := filter (\<lambda>kt. fst kt \<noteq> rid) (pending w)\<rparr>"

definition resume_task :: "task \<Rightarrow> response \<Rightarrow> world \<Rightarrow> world option" where
  "resume_task t resp w =
     (case t of
        Await_articles k \<Rightarrow>
          (case resp of
             Articles_response r \<Rightarrow> Some (after_fetchArticles k (fetchArticles_settled r w))
           | _ \<Rightarrow> None)
      | Await_stats k \<Rightarrow>
          (case resp of
             Stats_response r \<Rightarrow> Some (after_fetchStats k (fetchStats_settled r w))
           | _ \<Rightarrow> None)
      | Await_categories \<Rightarrow>
          (case resp of
             Categories_response r \<Rightarrow> Some (fetchCategories_settled r w)
           | _ \<Rightarrow> None)
      | Await_refresh p c \<Rightarrow>
          (case resp of
             Refresh_response r \<Rightarrow> Some (handleRefresh_settled p c r w)
           | _ \<Rightarrow> None))"

definition settle :: "nat \<Rightarrow> response \<Rightarrow> world \<Rightarrow> world" where
  "settle rid resp w =
     (case map_of (pending w) rid of
        None \<Rightarrow> w
      | Some t \<Rightarrow>
          (case resume_task t resp (remove_task rid w) of
             None \<Rightarrow> w
           | Some w' \<Rightarrow> w'))"

text \<open>
  The events of the page. A user event reaches its handler only through an element that
  the committed render shows and has not disabled; the conditions are those of the JSX,
  read in \<open>rendered\<close>:
  \<^item> \<open>Mount\<close>: the effect of lines 181-185;
  \<^item> \<open>Render\<close>: React commits a render of the current state;
  \<^item> \<open>Click_refresh_stats\<close>: the button of lines 229-235, inside \<open>stats && ...\<close>, with
    \<open>disabled={refreshing}\<close>;
  \<^item> \<open>Click_refresh_empty\<close>: the button of lines 373-379, inside
    \<open>!loading && articles.length === 0\<close>, with \<open>disabled={refreshing}\<close>;
  \<^item> \<open>Select_category c\<close>: the select of lines 244-255, whose options are the empty
    string and the known categories and whose value is \<open>selectedCategory\<close>; picking the
    option it already shows raises no change event;
  \<^item> \<open>Click_fjern_filter\<close>: the button of lines 257-262, inside \<open>selectedCategory && ...\<close>;
  \<^item> \<open>Click_forrige\<close>, \<open>Click_neste\<close>: the pager of lines 384-405, whose arguments
    \<open>currentPage - 1\<close> and \<open>currentPage + 1\<close> are computed in the render.
  Two user events with no \<open>Render\<close> between them are two events of one task (a double
  click delivered before React commits): the second meets the render the first met.
\<close>

datatype event =
    Mount
  | Render
  | Click_refresh_stats
  | Click_refresh_empty
  | Select_category string
  | Click_fjern_filter
  | Click_forrige
  | Click_neste
  | Settle nat response

definition pager_rendered :: "page_state \<Rightarrow> bool" where
  "pager_rendered s = (\<not> loading s \<and> articles s \<noteq> [] \<and> totalPages s > 1)"

fun step :: "event \<Rightarrow> world \<Rightarrow> world" where
  "step Mount w = fetchCategories (fetchStats Detached (fetchArticles 1 [] Detached w))"
| "step Render w = w\<lparr>rendered := ui w\<rparr>"
| "step Click_refresh_stats w =
     (if stats (rendered w) \<noteq> None \<and> \<not> refreshing (rendered w) then handleRefresh w else w)"
| "step Click_refresh_empty w =
     (if \<not> loading (rendered w) \<and> articles (rendered w) = [] \<and> \<not> refreshing (rendered w)
      then handleRefresh w else w)"
| "step (Select_category c) w =
     (if c \<in> set ([] # categories (rendered w)) \<and> c \<noteq> selectedCategory (rendered w)
      then handleCategoryChange c w else w)"
| "step Click_fjern_filter w =
     (if selectedCategory (rendered w) \<noteq> [] then handleCategoryChange [] w else w)"
| "step Click_forrige w =
     (if pager_rendered (rendered w) \<and> currentPage (rendered w) \<noteq> 1
      then handlePageChange (currentPage (rendered w) - 1) w else w)"
| "step Click_neste w =
     (if pager_rendered (rendered w) \<and> currentPage (rendered w) \<noteq> totalPages (rendered w)
      then handlePageChange (currentPage (rendered w) + 1) w else w)"
| "step (Settle rid resp) w = settle rid resp w"

fun run :: "event list \<Rightarrow> world \<Rightarrow> world" where
  "run [] w = w"
| "run (e # es) w = run es (step e w)"

section \<open>The status of the listing (lines 268-282)\<close>

text \<open>
  The source has no status field. The view shows the loading text while \<open>loading\<close>, and
  the error box while \<open>error\<close> is a non-empty string; the three states of the listing
  are read off these two cells.
\<close>

datatype status = Loading | Ready | Failed

definition status_of :: "page_state \<Rightarrow> status" where
  "status_of s = (if loading s then Loading else if error s \<noteq> [] then Failed else Ready)"

section \<open>Observations on refreshes\<close>

fun refresh_task :: "task \<Rightarrow> bool" where
  "refresh_task (Await_refresh p c) = True"
| "refresh_task (Await_articles (Resume_handleRefresh n)) = True"
| "refresh_task (Await_stats (Resume_handleRefresh n)) = True"
| "refresh_task t = False"

text \<open>The invocations of \<open>handleRefresh\<close> that have not reached their \<open>finally\<close>.\<close>

definition refreshes_outstanding :: "world \<Rightarrow> nat" where
  "refreshes_outstanding w = length (filter (\<lambda>kt. refresh_task (snd kt)) (pending w))"

definition posts_issued :: "world \<Rightarrow> nat" where
  "posts_issued w = length (filter (\<lambda>r. r = PostRefresh) (issued w))"

fun settles :: "nat \<Rightarrow> event \<Rightarrow> bool" where
  "settles rid (Settle k resp) = (k = rid)"
| "settles rid e = False"

section \<open>The image of an article card (lines 146-178, 290-297)\<close>

text \<open>
  \<open>categoryMap[category] || category\<close> over the nine keys of the literal; the letters
  outside ASCII are written as their UTF-8 bytes.
\<close>

definition categoryMap :: "(string \<times> string) list" where
  "categoryMap =
     [(''helse'', ''Helse''),
      (''alternativ_medisin'', ''Alternativ Medisin''),
      (''politikk'', ''Politikk''),
      (''krig'', ''Krig & Milit'' @ [char_of (0xC3 :: nat), char_of (0xA6 :: nat)] @ ''r''),
      (''teknologi'', ''Teknologi''),
      ([char_of (0xC3 :: nat), char_of (0xB8 :: nat)] @ ''konomi'',
       [char_of (0xC3 :: nat), char_of (0x98 :: nat)] @ ''konomi''),
      (''kultur'', ''Kultur''),
      (''medier'', ''Medier''),
      (''klima'', ''Klima'')]"

definition getCategoryDisplayName :: "string \<Rightarrow> string" where
  "getCategoryDisplayName c = js_or (map_of categoryMap c) c"

text \<open>
  The DOM as far as \<open>handleImageError\<close> touches it. An element other than the image has
  its class tokens and its \<open>innerHTML\<close>. The image has its \<open>src\<close>,
  \<open>dataset.fallbackAttempted\<close>, \<open>style.display\<close> and its parent, given by the parent's
  other children (\<open>None\<close> when \<open>parentElement\<close> is null). \<open>loads\<close> lists the URLs the
  element was asked to load, one entry per assignment to \<open>src\<close>.
\<close>

record dom_element =
  classList :: "string list"
  innerHTML :: string

record img_element =
  src :: string
  fallbackAttempted :: "string option"
  display :: string
  parentElement :: "dom_element list option"
  loads :: "string list"

definition fallback_src :: string where
  "fallback_src = ''https://storage.googleapis.com/workspace-0f70711f-8b4e-4d94-86f1-2a93ccde5887/image/e9c2df8f-c37e-4964-b641-53c56348d05e.png))}''"

definition dq :: string where
  "dq = [char_of (0x22 :: nat)]"

definition fallback_element :: "string \<Rightarrow> dom_element" where
  "fallback_element c =
     \<lparr>classList = [''image-fallback'', ''w-full'', ''h-full'', ''bg-gray-800'', ''flex'',
                   ''items-center'', ''justify-center'', ''border-2'', ''border-dashed'',
                   ''border-gray-600''],
      innerHTML = ''<div class='' @ dq @ ''text-center text-gray-400'' @ dq @ ''>''
                  @ ''<div class='' @ dq @ ''text-lg font-medium'' @ dq @ ''>''
                  @ getCategoryDisplayName c @ ''</div>''
                  @ ''<div class='' @ dq @ ''text-sm'' @ dq @ ''>Ingen bilde tilgjengelig</div></div>''\<rparr>"

text \<open>\<open>parent.querySelector('.image-fallback')\<close> finds an element or null.\<close>

definition querySelector_image_fallback :: "dom_element list \<Rightarrow> dom_element option" where
  "querySelector_image_fallback cs = find (\<lambda>e. ''image-fallback'' \<in> set (classList e)) cs"

definition handleImageError :: "string \<Rightarrow> img_element \<Rightarrow> img_element" where
  "handleImageError c target =
     (if \<not> truthy (fallbackAttempted target)
      then target\<lparr>fallbackAttempted := Some ''true'',
                  src := fallback_src,
                  loads := loads target @ [fallback_src]\<rparr>
      else
        (let hidden = target\<lparr>display := ''none''\<rparr> in
         case parentElement target of
           None \<Rightarrow> hidden
         | Some cs \<Rightarrow>
             (if querySelector_image_fallback cs = None
              then hidden\<lparr>parentElement := Some (cs @ [fallback_element c])\<rparr>
              else hidden)))"

text \<open>The image as React creates it for an article with \<open>imageUrl = u\<close>.\<close>

definition rendered_img :: "string \<Rightarrow> dom_element list \<Rightarrow> img_element" where
  "rendered_img u siblings =
     \<lparr>src = u, fallbackAttempted = None, display = [], parentElement = Some siblings,
      loads = [u]\<rparr>"

text \<open>The three stages of section 4.4 of the specification, read off the element.\<close>

datatype ImageLoadState = Primary | FallbackImage | FallbackPlaceholder

definition imageLoadState :: "img_element \<Rightarrow> ImageLoadState" where
  "imageLoadState e =
     (if display e = ''none'' then FallbackPlaceholder
      else if truthy (fallbackAttempted e) then FallbackImage
      else Primary)"

fun stage_rank :: "ImageLoadState \<Rightarrow> nat" where
  "stage_rank Primary = 0"
| "stage_rank FallbackImage = 1"
| "stage_rank FallbackPlaceholder = 2"

definition placeholders :: "img_element \<Rightarrow> nat" where
  "placeholders e =
     (case parentElement e of
        None \<Rightarrow> 0
      | Some cs \<Rightarrow> length (filter (\<lambda>d. ''image-fallback'' \<in> set (classList d)) cs))"

text \<open>\<open>n\<close> error events in a row on the image of an article of category \<open>c\<close>.\<close>

fun image_errors :: "nat \<Rightarrow> string \<Rightarrow> img_element \<Rightarrow> img_element" where
  "image_errors 0 c e = e"
| "image_errors (Suc n) c e = image_errors n c (handleImageError c e)"

section \<open>Vocabulary of the properties\<close>

text \<open>The cells that \<open>fetchArticles\<close> writes: the state of the article listing.\<close>

definition listing :: "page_state \<Rightarrow> bool \<times> Article list \<times> string \<times> int \<times> int" where
  "listing s = (loading s, articles s, error s, currentPage s, totalPages s)"

text \<open>A call failed: it was rejected, or the response was not a success.\<close>

fun failed :: "'a outcome \<Rightarrow> bool" where
  "failed Rejected = True"
| "failed (Status_not_ok e) = True"
| "failed (Status_ok d) = False"

text \<open>
  A trace in which every refresh click sees the flag: whenever a click on a refresh
  button arrives while \<open>refreshing\<close> is set, the render that shows it set has been
  committed. Clicks that arrive after the render that follows \<open>setRefreshing(true)\<close> is
  committed are of this kind; a second click delivered before that commit is not.
\<close>

fun refresh_click :: "event \<Rightarrow> bool" where
  "refresh_click Click_refresh_stats = True"
| "refresh_click Click_refresh_empty = True"
| "refresh_click e = False"

fun clicks_see_flag :: "event list \<Rightarrow> world \<Rightarrow> bool" where
  "clicks_see_flag [] w = True"
| "clicks_see_flag (e # es) w =
     ((refresh_click e \<and> refreshing (ui w) \<longrightarrow> refreshing (rendered w))
      \<and> clicks_see_flag es (step e w))"

text \<open>
  An event that does not bring a page below 1 from the server: every event but a
  successful article response whose \<open>pagination.currentPage\<close> is below 1.
\<close>

fun server_page_ok :: "event \<Rightarrow> bool" where
  "server_page_ok (Settle rid (Articles_response (Status_ok d))) =
     (case body_pagination d of None \<Rightarrow> True | Some pg \<Rightarrow> 1 \<le> pagination_currentPage pg)"
| "server_page_ok e = True"

text \<open>
  The invariant of the event loop along such traces: every pending task waits for a
  call of the log, no two tasks wait for the same call, \<open>refreshing\<close> is set exactly
  while one invocation of \<open>handleRefresh\<close> is outstanding, and every POST of the log
  belongs either to an invocation that has finished (each ends with exactly one alert,
  and nothing else alerts) or to the outstanding one.
\<close>

definition world_inv :: "world \<Rightarrow> bool" where
  "world_inv w \<longleftrightarrow>
     (\<forall>kt \<in> set (pending w). fst kt < length (issued w))
   \<and> distinct (map fst (pending w))
   \<and> refreshes_outstanding w = (if refreshing (ui w) then 1 else 0)
   \<and> posts_issued w = length (alerts w) + refreshes_outstanding w"

text \<open>
  The same with the task of the outstanding \<open>handleRefresh\<close> taken off the list and
  not yet replaced: the state inside a step that resumes that invocation.
\<close>

definition one_short :: "world \<Rightarrow> bool" where
  "one_short w \<longleftrightarrow>
     (\<forall>kt \<in> set (pending w). fst kt < length (issued w))
   \<and> distinct (map fst (pending w))
   \<and> refreshes_outstanding w = 0
   \<and> refreshing (ui w)
   \<and> posts_issued w = Suc (length (alerts w))"

text \<open>An article for the examples: only its identifier and category vary.\<close>

definition example_article :: "string \<Rightarrow> string \<Rightarrow> Article" where
  "example_article i c =
     \<lparr>id' = i, title = ''Tittel'', summary = ''Sammendrag'', author = None,
      publishDate = ''2024-01-01T00:00:00Z'', category = c, source = ''Kilde'',
      url = ''https://example.org/'' @ i, imageUrl = None, readingTime = Some 3\<rparr>"

section \<open>Frame lemmas\<close>

lemmas model_defs =
  world0_def initial_state_def issue_def fetchArticles_def fetchArticles_settled_def
  fetchStats_def fetchStats_settled_def fetchCategories_def fetchCategories_settled_def
  handleRefresh_def handleRefresh_finish_def handleRefresh_settled_def
  after_fetchArticles_def after_fetchStats_def handleCategoryChange_def handlePageChange_def
  remove_task_def resume_task_def settle_def pager_rendered_def category_param_def js_or_def

lemma js_or_nonempty: "d \<noteq> [] \<Longrightarrow> js_or x d \<noteq> []"
  by (simp add: js_or_def split: option.splits)

lemma ui_remove_task: "ui (remove_task rid w) = ui w"
  by (simp add: remove_task_def)

lemma ui_after_fetchArticles: "ui (after_fetchArticles k w) = ui w"
  by (cases k) (simp_all add: after_fetchArticles_def fetchStats_def issue_def)

lemma ui_after_fetchStats_Detached: "ui (after_fetchStats Detached w) = ui w"
  by (simp add: after_fetchStats_def)

lemma listing_after_fetchStats: "listing (ui (after_fetchStats k w)) = listing (ui w)"
  by (cases k) (simp_all add: after_fetchStats_def handleRefresh_finish_def listing_def)

lemma stats_after_fetchStats: "stats (ui (after_fetchStats k w)) = stats (ui w)"
  by (cases k) (simp_all add: after_fetchStats_def handleRefresh_finish_def)

lemma categories_after_fetchStats: "categories (ui (after_fetchStats k w)) = categories (ui w)"
  by (cases k) (simp_all add: after_fetchStats_def handleRefresh_finish_def)

lemma settle_articles:
  "map_of (pending w) rid = Some (Await_articles k) \<Longrightarrow>
   settle rid (Articles_response r) w =
     after_fetchArticles k (fetchArticles_settled r (remove_task rid w))"
  by (simp add: settle_def resume_task_def)

lemma settle_stats:
  "map_of (pending w) rid = Some (Await_stats k) \<Longrightarrow>
   settle rid (Stats_response r) w = after_fetchStats k (fetchStats_settled r (remove_task rid w))"
  by (simp add: settle_def resume_task_def)

lemma settle_categories:
  "map_of (pending w) rid = Some Await_categories \<Longrightarrow>
   settle rid (Categories_response r) w = fetchCategories_settled r (remove_task rid w)"
  by (simp add: settle_def resume_task_def)

lemma settle_refresh:
  "map_of (pending w) rid = Some (Await_refresh p c) \<Longrightarrow>
   settle rid (Refresh_response r) w = handleRefresh_settled p c r (remove_task rid w)"
  by (simp add: settle_def resume_task_def)

lemma ui_fetchArticles_settled_not_ok:
  "ui (fetchArticles_settled (Status_not_ok e) w) =
     (ui w)\<lparr>error := js_or e ''Kunne ikke hente artikler'', loading := False\<rparr>"
  by (simp add: fetchArticles_settled_def)

lemma ui_fetchArticles_settled_rejected:
  "ui (fetchArticles_settled Rejected w) =
     (ui w)\<lparr>error := ''Nettverksfeil ved henting av artikler'', loading := False\<rparr>"
  by (simp add: fetchArticles_settled_def)

lemma ui_fetchArticles_settled_ok:
  "ui (fetchArticles_settled (Status_ok (Articles_body arts (Some pg))) w) =
     (ui w)\<lparr>articles := arts, totalPages := pagination_totalPages pg,
            currentPage := pagination_currentPage pg, error := [], loading := False\<rparr>"
  by (simp add: fetchArticles_settled_def)

lemma ui_fetchStats_settled_failed: "failed r \<Longrightarrow> ui (fetchStats_settled r w) = ui w"
  by (cases r) (simp_all add: fetchStats_settled_def)

lemma alerts_fetchStats_settled: "alerts (fetchStats_settled r w) = alerts w"
  by (cases r) (simp_all add: fetchStats_settled_def)

lemma ui_fetchCategories_settled_failed: "failed r \<Longrightarrow> ui (fetchCategories_settled r w) = ui w"
  by (cases r) (simp_all add: fetchCategories_settled_def)

lemma alerts_fetchCategories_settled: "alerts (fetchCategories_settled r w) = alerts w"
  by (cases r) (simp_all add: fetchCategories_settled_def)

lemma map_of_filter_other:
  "k \<noteq> rid \<Longrightarrow> map_of (filter (\<lambda>kt. fst kt \<noteq> rid) ps) k = map_of ps k"
  by (induction ps) auto

lemma ui_fetchArticles_settled_no_pagination:
  "ui (fetchArticles_settled (Status_ok (Articles_body arts None)) w) =
     (ui w)\<lparr>articles := arts, error := ''Nettverksfeil ved henting av artikler'',
            loading := False\<rparr>"
  by (simp add: fetchArticles_settled_def)

lemma articles_outcome_cases [case_names Rejected Complete No_pagination Not_ok]:
  assumes "r = Rejected \<Longrightarrow> P"
    and "\<And>arts pg. r = Status_ok (Articles_body arts (Some pg)) \<Longrightarrow> P"
    and "\<And>arts. r = Status_ok (Articles_body arts None) \<Longrightarrow> P"
    and "\<And>e. r = Status_not_ok e \<Longrightarrow> P"
  shows P
proof (cases r)
  case Rejected
  then show ?thesis by (rule assms(1))
next
  case (Status_ok d)
  then show ?thesis
    using assms(2,3) by (cases d; cases "body_pagination d") auto
next
  case (Status_not_ok e)
  then show ?thesis by (rule assms(4))
qed

lemma ui_fetchArticles_settled_cong:
  "ui w = ui w' \<Longrightarrow> ui (fetchArticles_settled r w) = ui (fetchArticles_settled r w')"
  by (cases r rule: articles_outcome_cases)
     (simp_all add: ui_fetchArticles_settled_ok ui_fetchArticles_settled_not_ok
        ui_fetchArticles_settled_rejected ui_fetchArticles_settled_no_pagination)

lemma ui_settle_articles:
  assumes "map_of (pending w) rid = Some (Await_articles k)"
  shows "ui (settle rid (Articles_response r) w) = ui (fetchArticles_settled r w)"
  using ui_fetchArticles_settled_cong [of "remove_task rid w" w r]
  by (simp add: settle_articles [OF assms] ui_after_fetchArticles ui_remove_task)

lemma ok_response_absorbs:
  "(ui (fetchArticles_settled r w))\<lparr>articles := a, totalPages := t, currentPage := c,
      error := e, loading := l\<rparr> =
   (ui w)\<lparr>articles := a, totalPages := t, currentPage := c, error := e, loading := l\<rparr>"
  by (cases r rule: articles_outcome_cases)
     (simp_all add: ui_fetchArticles_settled_ok ui_fetchArticles_settled_not_ok
        ui_fetchArticles_settled_rejected ui_fetchArticles_settled_no_pagination)

lemma resume_task_keeps_others:
  assumes "resume_task t resp w = Some w'" and "rid < length (issued w)"
  shows "map_of (pending w') rid = map_of (pending w) rid \<and> rid < length (issued w')"
  using assms
  by (cases t; cases resp)
     (auto simp add: resume_task_def fetchArticles_settled_def
        fetchStats_settled_def fetchCategories_settled_def handleRefresh_settled_def
        handleRefresh_finish_def after_fetchArticles_def after_fetchStats_def
        fetchArticles_def fetchStats_def issue_def
        split: option.splits outcome.splits resume.splits)

lemma step_keeps_task:
  assumes "map_of (pending w) rid = Some t" and "rid < length (issued w)" and "\<not> settles rid e"
  shows "map_of (pending (step e w)) rid = Some t \<and> rid < length (issued (step e w))"
proof (cases e)
  case (Settle k resp)
  with assms have "k \<noteq> rid" by simp
  with assms(1,2) have "map_of (pending (remove_task k w)) rid = Some t"
    and "rid < length (issued (remove_task k w))"
    by (simp_all add: remove_task_def map_of_filter_other)
  with assms(1,2) Settle show ?thesis
    using resume_task_keeps_others [of _ resp "remove_task k w" _ rid]
    by (auto simp add: settle_def split: option.splits)
qed (use assms in \<open>auto simp add: fetchArticles_def fetchStats_def fetchCategories_def
        handleRefresh_def handleCategoryChange_def handlePageChange_def issue_def\<close>)

lemma run_keeps_task:
  assumes "list_all (\<lambda>e. \<not> settles rid e) es"
    and "map_of (pending w) rid = Some t" and "rid < length (issued w)"
  shows "map_of (pending (run es w)) rid = Some t"
  using assms
proof (induction es arbitrary: w)
  case Nil
  then show ?case by simp
next
  case (Cons e es)
  from Cons.prems have "\<not> settles rid e" and rest: "list_all (\<lambda>e. \<not> settles rid e) es"
    by simp_all
  with Cons.prems step_keeps_task [of w rid t e]
  have "map_of (pending (step e w)) rid = Some t" and "rid < length (issued (step e w))"
    by simp_all
  with rest Cons.IH [of "step e w"] show ?case by simp
qed

section \<open>The invariant of the event loop\<close>

lemma count_after_removal:
  assumes "distinct (map fst ps)" and "map_of ps rid = Some t"
  shows "length (filter Q (filter (\<lambda>kt. fst kt \<noteq> rid) ps))
       = length (filter Q ps) - (if Q (rid, t) then 1 else 0)"
  using assms
proof (induction ps)
  case Nil
  then show ?case by simp
next
  case (Cons a ps)
  show ?case
  proof (cases "fst a = rid")
    case True
    with Cons.prems have a: "a = (rid, t)" by (cases a) simp
    from Cons.prems True have "rid \<notin> fst ` set ps" by auto
    then have "filter (\<lambda>kt. fst kt \<noteq> rid) ps = ps"
      by (auto simp add: filter_id_conv)
    with a show ?thesis by simp
  next
    case False
    with Cons.prems have "map_of ps rid = Some t" by (cases a) auto
    moreover from Cons.prems have "distinct (map fst ps)" by simp
    ultimately have IH: "length (filter Q (filter (\<lambda>kt. fst kt \<noteq> rid) ps))
       = length (filter Q ps) - (if Q (rid, t) then 1 else 0)"
      by (rule Cons.IH [rotated])
    have "(rid, t) \<in> set ps" using \<open>map_of ps rid = Some t\<close> by (rule map_of_SomeD)
    then have "Q (rid, t) \<Longrightarrow> 0 < length (filter Q ps)"
      by (auto simp add: filter_empty_conv)
    with False IH show ?thesis by auto
  qed
qed

lemma count_positive:
  assumes "map_of ps rid = Some t" and "Q (rid, t)"
  shows "0 < length (filter Q ps)"
proof -
  from assms(1) have "(rid, t) \<in> set ps" by (rule map_of_SomeD)
  with assms(2) show ?thesis by (auto simp add: filter_empty_conv)
qed

lemma inv_issue_plain:
  assumes "world_inv w" and "\<not> refresh_task t" and "r \<noteq> PostRefresh"
  shows "world_inv (issue r t w)"
  using assms by (auto simp add: world_inv_def issue_def refreshes_outstanding_def posts_issued_def)

lemma inv_ui:
  assumes "world_inv w" and "refreshing s = refreshing (ui w)"
  shows "world_inv (w\<lparr>ui := s\<rparr>)"
  using assms by (simp add: world_inv_def refreshes_outstanding_def posts_issued_def)

lemma inv_console:
  assumes "world_inv w" 
  shows "world_inv (w\<lparr>console := c\<rparr>)"
  using assms by (simp add: world_inv_def refreshes_outstanding_def posts_issued_def)

lemma inv_rendered:
  assumes "world_inv w"
  shows "world_inv (w\<lparr>rendered := s\<rparr>)"
  using assms by (simp add: world_inv_def refreshes_outstanding_def posts_issued_def)

lemma inv_fetchArticles_Detached: "world_inv w \<Longrightarrow> world_inv (fetchArticles p c Detached w)"
  unfolding fetchArticles_def by (rule inv_issue_plain) (simp_all add: inv_ui)

lemma inv_fetchStats_Detached: "world_inv w \<Longrightarrow> world_inv (fetchStats Detached w)"
  unfolding fetchStats_def by (rule inv_issue_plain) simp_all

lemma inv_fetchCategories: "world_inv w \<Longrightarrow> world_inv (fetchCategories w)"
  unfolding fetchCategories_def by (rule inv_issue_plain) simp_all

lemma inv_handleCategoryChange: "world_inv w \<Longrightarrow> world_inv (handleCategoryChange c w)"
  unfolding handleCategoryChange_def by (rule inv_fetchArticles_Detached) (simp add: inv_ui)

lemma inv_handlePageChange: "world_inv w \<Longrightarrow> world_inv (handlePageChange p w)"
  unfolding handlePageChange_def by (rule inv_fetchArticles_Detached) (simp add: inv_ui)

lemma inv_handleRefresh:
  assumes "world_inv w" and "\<not> refreshing (ui w)"
  shows "world_inv (handleRefresh w)"
  using assms
  by (auto simp add: world_inv_def handleRefresh_def issue_def refreshes_outstanding_def posts_issued_def)


lemma remove_plain:
  assumes "world_inv w" and "map_of (pending w) rid = Some t" and "\<not> refresh_task t"
  shows "world_inv (remove_task rid w)"
  using assms count_after_removal [of "pending w" rid t "\<lambda>kt. refresh_task (snd kt)"]
  by (auto simp add: world_inv_def remove_task_def refreshes_outstanding_def posts_issued_def distinct_map_filter)

lemma remove_refresh:
  assumes "world_inv w" and "map_of (pending w) rid = Some t" and "refresh_task t"
  shows "one_short (remove_task rid w)"
proof -
  let ?Q = "\<lambda>kt. refresh_task (snd kt)"
  from assms have pos: "0 < length (filter ?Q (pending w))"
    using count_positive [of "pending w" rid t ?Q] by simp
  with assms(1) have r: "refreshing (ui w)" and one: "length (filter ?Q (pending w)) = 1"
    by (auto simp add: world_inv_def refreshes_outstanding_def split: if_splits)
  from assms count_after_removal [of "pending w" rid t ?Q]
  have "length (filter ?Q (filter (\<lambda>kt. fst kt \<noteq> rid) (pending w))) = length (filter ?Q (pending w)) - 1"
    by (simp add: world_inv_def)
  with one r assms(1) show ?thesis
    by (auto simp add: one_short_def world_inv_def remove_task_def refreshes_outstanding_def posts_issued_def distinct_map_filter)
qed

lemma one_short_issue:
  assumes "one_short w" and "refresh_task t" and "r \<noteq> PostRefresh"
  shows "world_inv (issue r t w)"
  using assms by (auto simp add: one_short_def world_inv_def issue_def refreshes_outstanding_def posts_issued_def)

lemma one_short_ui:
  assumes "one_short w" and "refreshing s"
  shows "one_short (w\<lparr>ui := s\<rparr>)"
  using assms by (simp add: one_short_def refreshes_outstanding_def posts_issued_def)

lemma one_short_console: "one_short w \<Longrightarrow> one_short (w\<lparr>console := c\<rparr>)"
  by (simp add: one_short_def refreshes_outstanding_def posts_issued_def)

lemma one_short_finish: "one_short w \<Longrightarrow> world_inv (handleRefresh_finish m w)"
  by (simp add: one_short_def world_inv_def handleRefresh_finish_def refreshes_outstanding_def posts_issued_def)

lemma inv_fetchArticles_settled: "world_inv w \<Longrightarrow> world_inv (fetchArticles_settled r w)"
  by (auto simp add: fetchArticles_settled_def intro!: inv_ui inv_console split: outcome.splits option.splits)

lemma inv_fetchStats_settled: "world_inv w \<Longrightarrow> world_inv (fetchStats_settled r w)"
  by (auto simp add: fetchStats_settled_def intro!: inv_ui inv_console split: outcome.splits)

lemma inv_fetchCategories_settled: "world_inv w \<Longrightarrow> world_inv (fetchCategories_settled r w)"
  by (auto simp add: fetchCategories_settled_def intro!: inv_ui inv_console split: outcome.splits)

lemma one_short_fetchArticles_settled: "one_short w \<Longrightarrow> one_short (fetchArticles_settled r w)"
  by (auto simp add: fetchArticles_settled_def one_short_def refreshes_outstanding_def posts_issued_def split: outcome.splits option.splits)

lemma one_short_fetchStats_settled: "one_short w \<Longrightarrow> one_short (fetchStats_settled r w)"
  by (auto simp add: fetchStats_settled_def  one_short_def refreshes_outstanding_def posts_issued_def split: outcome.splits)

lemma one_short_fetchArticles: "one_short w \<Longrightarrow> world_inv (fetchArticles p c (Resume_handleRefresh n) w)"
  unfolding fetchArticles_def 
  by (rule one_short_issue) (simp_all add: one_short_def refreshes_outstanding_def posts_issued_def)

lemma one_short_handleRefresh_settled: "one_short w \<Longrightarrow> world_inv (handleRefresh_settled p c r w)"
  by (cases r) (simp_all add: handleRefresh_settled_def one_short_fetchArticles one_short_finish one_short_console)

lemma inv_resume_task:
  assumes "world_inv w" and "map_of (pending w) rid = Some t"
    and "resume_task t resp (remove_task rid w) = Some w'"
  shows "world_inv w'"
proof (cases "refresh_task t")
  case False
  with assms have i: "world_inv (remove_task rid w)" by (simp add: remove_plain)
  from False assms(3) show ?thesis
    by (cases t; cases resp)
       (auto simp add: resume_task_def after_fetchArticles_def after_fetchStats_def i
          inv_fetchArticles_settled inv_fetchStats_settled inv_fetchCategories_settled
          split: resume.splits)
next
  case True
  with assms have i: "one_short (remove_task rid w)" by (simp add: remove_refresh)
  from True assms(3) show ?thesis
    by (cases t; cases resp)
       (auto simp add: resume_task_def after_fetchArticles_def after_fetchStats_def fetchStats_def i
          one_short_fetchArticles_settled one_short_fetchStats_settled
          one_short_handleRefresh_settled one_short_finish
          intro!: one_short_issue
          split: resume.splits)
qed

lemma inv_settle: "world_inv w \<Longrightarrow> world_inv (settle rid resp w)"
  by (auto simp add: settle_def inv_resume_task split: option.splits)

lemma inv_step:
  assumes "world_inv w"
    and "refresh_click e \<and> refreshing (ui w) \<longrightarrow> refreshing (rendered w)"
  shows "world_inv (step e w)"
  using assms
  by (cases e)
     (auto simp add: inv_settle inv_handleRefresh inv_handleCategoryChange inv_handlePageChange
        inv_fetchCategories inv_fetchStats_Detached inv_fetchArticles_Detached inv_rendered)

lemma inv_run: "world_inv w \<Longrightarrow> clicks_see_flag es w \<Longrightarrow> world_inv (run es w)"
  by (induction es arbitrary: w) (simp_all add: inv_step)

lemma inv_world0: "world_inv world0"
  by (simp add: world_inv_def world0_def initial_state_def refreshes_outstanding_def posts_issued_def)

section \<open>The lower bound of the page\<close>

lemma page_resume_task:
  assumes "resume_task t resp w = Some w'" and "server_page_ok (Settle rid resp)"
    and "1 \<le> currentPage (ui w)"
  shows "1 \<le> currentPage (ui w') \<and> rendered w' = rendered w"
  using assms
  by (cases t; cases resp)
     (auto simp add: resume_task_def fetchArticles_settled_def fetchStats_settled_def
        fetchCategories_settled_def handleRefresh_settled_def handleRefresh_finish_def
        after_fetchArticles_def after_fetchStats_def fetchArticles_def fetchStats_def
        issue_def
        split: option.splits outcome.splits resume.splits)

lemma page_settle:
  assumes "server_page_ok (Settle rid resp)"
    and "1 \<le> currentPage (ui w)"
  shows "1 \<le> currentPage (ui (settle rid resp w)) \<and> rendered (settle rid resp w) = rendered w"
  using assms page_resume_task [of _ resp "remove_task rid w" _ rid]
  by (auto simp add: settle_def remove_task_def split: option.splits)

lemma page_step:
  assumes "1 \<le> currentPage (ui w)" and "1 \<le> currentPage (rendered w)"
    and "server_page_ok e"
  shows "1 \<le> currentPage (ui (step e w)) \<and> 1 \<le> currentPage (rendered (step e w))"
proof (cases e)
  case (Settle rid resp)
  with assms page_settle [of rid resp w] show ?thesis by simp
qed (use assms in \<open>auto simp add: fetchArticles_def fetchStats_def fetchCategories_def
        handleRefresh_def handleCategoryChange_def handlePageChange_def issue_def\<close>)

lemma page_run:
  assumes "list_all server_page_ok es"
    and "1 \<le> currentPage (ui w)" and "1 \<le> currentPage (rendered w)"
  shows "1 \<le> currentPage (ui (run es w)) \<and> 1 \<le> currentPage (rendered (run es w))"
  using assms
proof (induction es arbitrary: w)
  case Nil
  then show ?case by simp
next
  case (Cons e es)
  from Cons.prems have "server_page_ok e" and rest: "list_all server_page_ok es"
    by simp_all
  with Cons.prems page_step [of w e]
  have "1 \<le> currentPage (ui (step e w))" and "1 \<le> currentPage (rendered (step e w))"
    by simp_all
  with rest Cons.IH [of "step e w"] show ?case by simp
qed

section \<open>The article listing\<close>

text \<open>
  Claim C3, as the code has it. When the response of a load arrives, in whatever state
  the page is by then: a response that is not a success, and a call that throws (the
  fetch or the parsing of its body), leave a non-empty error message and \<open>loading\<close>
  false, which is the failed listing, and leave the article list as it was (the code has
  no statement that empties it); a successful response that carries both the articles
  and the pagination stores them and clears the error message, which is the ready
  listing. A successful response without the pagination object is neither of these and
  is left out of the statement; \<open>ui_fetchArticles_settled_no_pagination\<close> says what
  \<open>fetchArticles\<close> does with it.
\<close>

theorem load_response_effect:
  assumes "map_of (pending w) rid = Some (Await_articles k)"
  shows
    "ui (settle rid (Articles_response (Status_not_ok e)) w) =
       (ui w)\<lparr>error := js_or e ''Kunne ikke hente artikler'', loading := False\<rparr>
     \<and> ui (settle rid (Articles_response Rejected) w) =
       (ui w)\<lparr>error := ''Nettverksfeil ved henting av artikler'', loading := False\<rparr>
     \<and> status_of (ui (settle rid (Articles_response (Status_not_ok e)) w)) = Failed
     \<and> status_of (ui (settle rid (Articles_response Rejected) w)) = Failed
     \<and> error (ui (settle rid (Articles_response (Status_not_ok e)) w)) \<noteq> []
     \<and> error (ui (settle rid (Articles_response Rejected) w)) \<noteq> []
     \<and> articles (ui (settle rid (Articles_response (Status_not_ok e)) w)) = articles (ui w)
     \<and> articles (ui (settle rid (Articles_response Rejected) w)) = articles (ui w)
     \<and> ui (settle rid (Articles_response (Status_ok (Articles_body arts (Some pg)))) w) =
       (ui w)\<lparr>articles := arts, totalPages := pagination_totalPages pg,
              currentPage := pagination_currentPage pg, error := [], loading := False\<rparr>
     \<and> status_of (ui (settle rid (Articles_response (Status_ok (Articles_body arts (Some pg)))) w))
       = Ready"
proof -
  have ne: "js_or e ''Kunne ikke hente artikler'' \<noteq> []"
    by (rule js_or_nonempty) simp
  show ?thesis
    using ne
    by (simp add: settle_articles [OF assms] ui_after_fetchArticles ui_remove_task
        ui_fetchArticles_settled_not_ok ui_fetchArticles_settled_rejected
        ui_fetchArticles_settled_ok status_of_def)
qed

text \<open>
  The witness: the first page, of three, is listed with one article, the user clicks
  "Neste", and the call of that click (index 3) is rejected. The article stays listed.
\<close>

theorem load_response_effect_witness:
  "map_of (pending (run
      [Mount,
       Settle 0 (Articles_response (Status_ok
         (Articles_body [example_article ''a1'' ''helse''] (Some (Pagination 1 3))))),
       Render, Click_neste] world0)) 3 = Some (Await_articles Detached)
   \<and> articles (ui (run
      [Mount,
       Settle 0 (Articles_response (Status_ok
         (Articles_body [example_article ''a1'' ''helse''] (Some (Pagination 1 3))))),
       Render, Click_neste] world0)) = [example_article ''a1'' ''helse'']
   \<and> articles (ui (settle 3 (Articles_response Rejected) (run
      [Mount,
       Settle 0 (Articles_response (Status_ok
         (Articles_body [example_article ''a1'' ''helse''] (Some (Pagination 1 3))))),
       Render, Click_neste] world0))) = [example_article ''a1'' ''helse'']
   \<and> status_of (ui (settle 3 (Articles_response Rejected) (run
      [Mount,
       Settle 0 (Articles_response (Status_ok
         (Articles_body [example_article ''a1'' ''helse''] (Some (Pagination 1 3))))),
       Render, Click_neste] world0))) = Failed"
proof -
  let ?w = "run
      [Mount,
       Settle 0 (Articles_response (Status_ok
         (Articles_body [example_article ''a1'' ''helse''] (Some (Pagination 1 3))))),
       Render, Click_neste] world0"
  have h: "map_of (pending ?w) 3 = Some (Await_articles Detached)"
    by (simp add: model_defs)
  have a: "articles (ui ?w) = [example_article ''a1'' ''helse'']"
    by (simp add: model_defs)
  from load_response_effect [OF h, of None "[]" "Pagination 1 1"]
  have kept: "articles (ui (settle 3 (Articles_response Rejected) ?w)) = articles (ui ?w)"
    and st: "status_of (ui (settle 3 (Articles_response Rejected) ?w)) = Failed"
    by blast+
  from h a kept st show ?thesis by simp
qed

text \<open>
  The claim as stated asks for an empty article list after a failure. The first page, of
  three, is listed with one article and rendered; the user clicks "Neste" and the call of
  that click (index 3) is answered with an error. The listing is failed and the article
  of the first page is still the list.
\<close>

theorem failed_load_keeps_articles:
  "articles (ui (run
      [Mount,
       Settle 0 (Articles_response (Status_ok
         (Articles_body [example_article ''a1'' ''helse''] (Some (Pagination 1 3))))),
       Render,
       Click_neste,
       Settle 3 (Articles_response (Status_not_ok (Some ''Serverfeil'')))]
      world0)) = [example_article ''a1'' ''helse'']
   \<and> issued (run
      [Mount,
       Settle 0 (Articles_response (Status_ok
         (Articles_body [example_article ''a1'' ''helse''] (Some (Pagination 1 3))))),
       Render,
       Click_neste,
       Settle 3 (Articles_response (Status_not_ok (Some ''Serverfeil'')))]
      world0) ! 3 = GetArticles 2 ''12'' None
   \<and> status_of (ui (run
      [Mount,
       Settle 0 (Articles_response (Status_ok
         (Articles_body [example_article ''a1'' ''helse''] (Some (Pagination 1 3))))),
       Render,
       Click_neste,
       Settle 3 (Articles_response (Status_not_ok (Some ''Serverfeil'')))]
      world0)) = Failed"
  by (simp add: model_defs status_of_def)

text \<open>
  Claim C8. The error message of a load tells the two kinds of failure apart. For a
  response that is not a success it is the server's \<open>error\<close> field when that is a
  non-empty string, and the generic text "Kunne ikke hente artikler" when the field is
  missing or empty; for a rejected call it is the network text
  "Nettverksfeil ved henting av artikler".
\<close>

theorem load_error_message:
  assumes "map_of (pending w) rid = Some (Await_articles k)"
  shows
    "error (ui (settle rid (Articles_response (Status_not_ok (Some m))) w)) =
       (if m = [] then ''Kunne ikke hente artikler'' else m)
     \<and> error (ui (settle rid (Articles_response (Status_not_ok None)) w)) =
       ''Kunne ikke hente artikler''
     \<and> error (ui (settle rid (Articles_response Rejected) w)) =
       ''Nettverksfeil ved henting av artikler''"
  by (simp add: settle_articles [OF assms] ui_after_fetchArticles ui_remove_task
      ui_fetchArticles_settled_not_ok ui_fetchArticles_settled_rejected js_or_def)

theorem load_error_message_witness:
  "map_of (pending (handlePageChange 2 world0)) 0 = Some (Await_articles Detached)
   \<and> error (ui (settle 0 (Articles_response (Status_not_ok (Some ''Databasen er nede'')))
       (handlePageChange 2 world0))) = ''Databasen er nede''
   \<and> error (ui (settle 0 (Articles_response (Status_not_ok None)) (handlePageChange 2 world0)))
     = ''Kunne ikke hente artikler''
   \<and> error (ui (settle 0 (Articles_response Rejected) (handlePageChange 2 world0)))
     = ''Nettverksfeil ved henting av artikler''"
proof -
  have h: "map_of (pending (handlePageChange 2 world0)) 0 = Some (Await_articles Detached)"
    by (simp add: model_defs)
  show ?thesis
    using h load_error_message [OF h, of "''Databasen er nede''"] by simp
qed

text \<open>
  Claim C1, as the code has it. \<open>fetchArticles\<close> has no stale-response guard: it keeps
  no request counter and cancels nothing, and every response is applied when it arrives.
  For two overlapping loads A then B, the listing ends as the response that arrives
  last leaves it. When A's response arrives after B's and is a success, the articles,
  the pagination and the cleared error are A's, whatever B's response was; when B's
  response arrives last and is a success they are B's.
\<close>

theorem overlapping_loads_last_arrival_wins:
  "ui (run [Settle (Suc (length (issued w))) (Articles_response rB),
            Settle (length (issued w))
              (Articles_response (Status_ok (Articles_body artsA (Some pgA))))]
         (fetchArticles pB cB kB (fetchArticles pA cA kA w))) =
     (ui w)\<lparr>articles := artsA, totalPages := pagination_totalPages pgA,
            currentPage := pagination_currentPage pgA, error := [], loading := False\<rparr>
   \<and> ui (run [Settle (length (issued w)) (Articles_response rA),
              Settle (Suc (length (issued w)))
                (Articles_response (Status_ok (Articles_body artsB (Some pgB))))]
         (fetchArticles pB cB kB (fetchArticles pA cA kA w))) =
     (ui w)\<lparr>articles := artsB, totalPages := pagination_totalPages pgB,
            currentPage := pagination_currentPage pgB, error := [], loading := False\<rparr>"
proof -
  let ?a = "length (issued w)"
  let ?w2 = "fetchArticles pB cB kB (fetchArticles pA cA kA w)"
  have pa: "map_of (pending ?w2) ?a = Some (Await_articles kA)"
    and pb: "map_of (pending ?w2) (Suc ?a) = Some (Await_articles kB)"
    and u2: "ui ?w2 = (ui w)\<lparr>loading := True\<rparr>"
    and len: "length (issued ?w2) = Suc (Suc ?a)"
    by (simp_all add: fetchArticles_def issue_def)
  have pending_B: "map_of (pending (settle (Suc ?a) (Articles_response rB) ?w2)) ?a
      = Some (Await_articles kA)"
    using step_keeps_task [of ?w2 ?a "Await_articles kA" "Settle (Suc ?a) (Articles_response rB)"]
      pa len
    by simp
  have pending_A: "map_of (pending (settle ?a (Articles_response rA) ?w2)) (Suc ?a)
      = Some (Await_articles kB)"
    using step_keeps_task [of ?w2 "Suc ?a" "Await_articles kB" "Settle ?a (Articles_response rA)"]
      pb len
    by simp
  have first: "ui (settle ?a (Articles_response (Status_ok (Articles_body artsA (Some pgA))))
        (settle (Suc ?a) (Articles_response rB) ?w2)) =
     (ui w)\<lparr>articles := artsA, totalPages := pagination_totalPages pgA,
            currentPage := pagination_currentPage pgA, error := [], loading := False\<rparr>"
    by (simp add: ui_settle_articles [OF pending_B] ui_settle_articles [OF pb]
        ui_fetchArticles_settled_ok ok_response_absorbs u2)
  have second: "ui (settle (Suc ?a) (Articles_response (Status_ok (Articles_body artsB (Some pgB))))
        (settle ?a (Articles_response rA) ?w2)) =
     (ui w)\<lparr>articles := artsB, totalPages := pagination_totalPages pgB,
            currentPage := pagination_currentPage pgB, error := [], loading := False\<rparr>"
    by (simp add: ui_settle_articles [OF pending_A] ui_settle_articles [OF pa]
        ui_fetchArticles_settled_ok ok_response_absorbs u2)
  from first second show ?thesis by simp
qed

theorem overlapping_loads_last_arrival_wins_witness:
  "articles (ui (run [Settle 1 (Articles_response (Status_ok
                        (Articles_body [example_article ''b1'' ''krig''] (Some (Pagination 1 4))))),
                      Settle 0 (Articles_response (Status_ok
                        (Articles_body [example_article ''a1'' ''helse''] (Some (Pagination 1 2)))))]
         (fetchArticles 1 ''krig'' Detached (fetchArticles 1 ''helse'' Detached world0))))
     = [example_article ''a1'' ''helse'']"
  using overlapping_loads_last_arrival_wins
    [of world0 "Status_ok (Articles_body [example_article ''b1'' ''krig''] (Some (Pagination 1 4)))"
        "[example_article ''a1'' ''helse'']" "Pagination 1 2" 1 "''krig''" Detached 1 "''helse''"
        Detached Rejected "[]" "Pagination 1 1"]
  by (simp add: world0_def)

text \<open>
  The claim as stated asks that the listing reflect the later request. The categories
  arrive and are rendered; the user picks "helse" and then "krig" before either load is
  answered; the answer for "krig" arrives first and the answer for "helse" last. The
  list then shows the article of "helse" while the selected category is "krig".
\<close>

theorem stale_response_overwrites_newer:
  "map category (articles (ui (run
      [Mount,
       Settle 2 (Categories_response (Status_ok [''helse'', ''krig''])),
       Render,
       Select_category ''helse'',
       Render,
       Select_category ''krig'',
       Render,
       Settle 4 (Articles_response (Status_ok
         (Articles_body [example_article ''b1'' ''krig''] (Some (Pagination 1 1))))),
       Settle 3 (Articles_response (Status_ok
         (Articles_body [example_article ''a1'' ''helse''] (Some (Pagination 1 1)))))]
      world0))) = [''helse'']
   \<and> selectedCategory (ui (run
      [Mount,
       Settle 2 (Categories_response (Status_ok [''helse'', ''krig''])),
       Render,
       Select_category ''helse'',
       Render,
       Select_category ''krig'',
       Render,
       Settle 4 (Articles_response (Status_ok
         (Articles_body [example_article ''b1'' ''krig''] (Some (Pagination 1 1))))),
       Settle 3 (Articles_response (Status_ok
         (Articles_body [example_article ''a1'' ''helse''] (Some (Pagination 1 1)))))]
      world0)) = ''krig''
   \<and> issued (run
      [Mount,
       Settle 2 (Categories_response (Status_ok [''helse'', ''krig''])),
       Render,
       Select_category ''helse'',
       Render,
       Select_category ''krig'',
       Render,
       Settle 4 (Articles_response (Status_ok
         (Articles_body [example_article ''b1'' ''krig''] (Some (Pagination 1 1))))),
       Settle 3 (Articles_response (Status_ok
         (Articles_body [example_article ''a1'' ''helse''] (Some (Pagination 1 1)))))]
      world0) =
     [GetArticles 1 ''12'' None, GetStats, GetCategories,
      GetArticles 1 ''12'' (Some ''helse''), GetArticles 1 ''12'' (Some ''krig'')]"
  by (simp add: model_defs example_article_def)

text \<open>
  Claim C5. For every category \<open>c\<close> and every state, \<open>handleCategoryChange c\<close> leaves the
  selected category \<open>c\<close> and the page 1, and makes exactly one call: the article listing
  of page 1, limit 12, with the category \<open>c\<close> (the empty category, which stands for all
  categories, is sent as no category parameter). One task, waiting for that call, is
  added.
\<close>

theorem category_change_resets_page:
  "selectedCategory (ui (handleCategoryChange c w)) = c
   \<and> currentPage (ui (handleCategoryChange c w)) = 1
   \<and> issued (handleCategoryChange c w) =
       issued w @ [GetArticles 1 ''12'' (if c = [] then None else Some c)]
   \<and> pending (handleCategoryChange c w) =
       (length (issued w), Await_articles Detached) # pending w"
  by (simp add: handleCategoryChange_def fetchArticles_def issue_def category_param_def)

theorem category_change_resets_page_witness:
  "currentPage (ui (handleCategoryChange ''krig'' (handlePageChange 7 world0))) = 1
   \<and> issued (handleCategoryChange ''krig'' (handlePageChange 7 world0)) =
       [GetArticles 7 ''12'' None, GetArticles 1 ''12'' (Some ''krig'')]"
  using category_change_resets_page [of "''krig''" "handlePageChange 7 world0"]
  by (simp add: model_defs)

text \<open>
  Claim C9, as the code has it. Nothing in the code checks a page: \<open>handleCategoryChange\<close>
  leaves the page 1 for every argument, \<open>handlePageChange p\<close> stores \<open>p\<close> as it is
  given, and a successful load stores the \<open>currentPage\<close> of the server as it is given.
  The bound is kept by the view and the server together: in every state the page reaches
  from its initial state, by any sequence of events in which every successful article
  response carries a \<open>currentPage\<close> of at least 1, the current page is at least 1, in
  the state and in the committed render ("Forrige" is disabled on page 1, so the pager
  never passes an argument below 1).
\<close>

theorem page_lower_bound:
  assumes "list_all server_page_ok es"
  shows
    "1 \<le> currentPage (ui (run es world0))
     \<and> 1 \<le> currentPage (rendered (run es world0))
     \<and> currentPage (ui (handleCategoryChange c w)) = 1
     \<and> currentPage (ui (handlePageChange p w)) = p"
proof -
  have "1 \<le> currentPage (ui world0)" and "1 \<le> currentPage (rendered world0)"
    by (simp_all add: world0_def initial_state_def)
  with assms have "1 \<le> currentPage (ui (run es world0))
      \<and> 1 \<le> currentPage (rendered (run es world0))"
    by (rule page_run)
  then show ?thesis
    by (simp add: handleCategoryChange_def handlePageChange_def fetchArticles_def issue_def)
qed

text \<open>
  The witness: page 2 of 3 is listed and rendered and the user clicks "Forrige", which
  asks for page 1 (the call with index 3); and page 1 of 3 is listed and rendered, where
  "Forrige" is disabled and a click on it makes no call.
\<close>

theorem page_lower_bound_witness:
  "list_all server_page_ok
      [Mount,
       Settle 0 (Articles_response (Status_ok
         (Articles_body [example_article ''a1'' ''helse''] (Some (Pagination 2 3))))),
       Render, Click_forrige]
   \<and> issued (run
      [Mount,
       Settle 0 (Articles_response (Status_ok
         (Articles_body [example_article ''a1'' ''helse''] (Some (Pagination 2 3))))),
       Render, Click_forrige] world0) ! 3 = GetArticles 1 ''12'' None
   \<and> 1 \<le> currentPage (ui (run
      [Mount,
       Settle 0 (Articles_response (Status_ok
         (Articles_body [example_article ''a1'' ''helse''] (Some (Pagination 2 3))))),
       Render, Click_forrige] world0))
   \<and> length (issued (run
      [Mount,
       Settle 0 (Articles_response (Status_ok
         (Articles_body [example_article ''a1'' ''helse''] (Some (Pagination 1 3))))),
       Render, Click_forrige] world0)) = 3
   \<and> 1 \<le> currentPage (ui (run
      [Mount,
       Settle 0 (Articles_response (Status_ok
         (Articles_body [example_article ''a1'' ''helse''] (Some (Pagination 1 3))))),
       Render, Click_forrige] world0))"
proof -
  let ?es2 = "[Mount,
       Settle 0 (Articles_response (Status_ok
         (Articles_body [example_article ''a1'' ''helse''] (Some (Pagination 2 3))))),
       Render, Click_forrige]"
  let ?es1 = "[Mount,
       Settle 0 (Articles_response (Status_ok
         (Articles_body [example_article ''a1'' ''helse''] (Some (Pagination 1 3))))),
       Render, Click_forrige]"
  have h2: "list_all server_page_ok ?es2" and h1: "list_all server_page_ok ?es1"
    by simp_all
  have call: "issued (run ?es2 world0) ! 3 = GetArticles 1 ''12'' None"
    by (simp add: model_defs)
  have none: "length (issued (run ?es1 world0)) = 3"
    by (simp add: model_defs)
  from page_lower_bound [OF h2] have b2: "1 \<le> currentPage (ui (run ?es2 world0))"
    by blast
  from page_lower_bound [OF h1] have b1: "1 \<le> currentPage (ui (run ?es1 world0))"
    by blast
  from h2 call b2 none b1 show ?thesis by blast
qed

text \<open>
  The claim as stated has the page at least 1 always, and \<open>setPage\<close> keep it so for
  every argument. The first load is answered with page 0 of 3, which \<open>fetchArticles\<close>
  stores; the pager is rendered with "Forrige" enabled, since the page is not 1; the user
  clicks it, and \<open>handlePageChange\<close> is called with -1, stores it and asks the server
  for page -1.
\<close>

theorem page_below_one_through_the_view:
  "currentPage (ui (run
      [Mount,
       Settle 0 (Articles_response (Status_ok
         (Articles_body [example_article ''a1'' ''helse''] (Some (Pagination 0 3)))))]
      world0)) = 0
   \<and> currentPage (ui (run
      [Mount,
       Settle 0 (Articles_response (Status_ok
         (Articles_body [example_article ''a1'' ''helse''] (Some (Pagination 0 3))))),
       Render, Click_forrige]
      world0)) = - 1
   \<and> issued (run
      [Mount,
       Settle 0 (Articles_response (Status_ok
         (Articles_body [example_article ''a1'' ''helse''] (Some (Pagination 0 3))))),
       Render, Click_forrige]
      world0) ! 3 = GetArticles (- 1) ''12'' None"
  by (simp add: model_defs)

section \<open>Statistics and categories\<close>

text \<open>
  Claim C7. When the call of \<open>fetchStats\<close> fails (rejected, or a response that is not a
  success), the statistics held before stay, the cells of the article listing and the
  categories are untouched, and when nobody awaits the function the whole state and the
  alerts are unchanged: nothing is shown to the user. The same holds for
  \<open>fetchCategories\<close>. In particular, after mount, when the statistics call fails and the
  article call succeeds, in either order of arrival, the listing is ready with the
  articles of the response.
\<close>

theorem auxiliary_failure_is_silent:
  assumes "failed r" and "failed r'"
  shows
    "(map_of (pending w) rid = Some (Await_stats k) \<longrightarrow>
        stats (ui (settle rid (Stats_response r) w)) = stats (ui w)
      \<and> listing (ui (settle rid (Stats_response r) w)) = listing (ui w)
      \<and> categories (ui (settle rid (Stats_response r) w)) = categories (ui w))
     \<and> (map_of (pending w) rid = Some (Await_stats Detached) \<longrightarrow>
        ui (settle rid (Stats_response r) w) = ui w
      \<and> alerts (settle rid (Stats_response r) w) = alerts w)
     \<and> (map_of (pending w) rid = Some Await_categories \<longrightarrow>
        ui (settle rid (Categories_response r') w) = ui w
      \<and> alerts (settle rid (Categories_response r') w) = alerts w)
     \<and> status_of (ui (run [Mount, Settle 1 (Stats_response r),
          Settle 0 (Articles_response (Status_ok (Articles_body arts (Some pg))))] world0)) = Ready
     \<and> articles (ui (run [Mount, Settle 1 (Stats_response r),
          Settle 0 (Articles_response (Status_ok (Articles_body arts (Some pg))))] world0)) = arts
     \<and> status_of (ui (run [Mount,
          Settle 0 (Articles_response (Status_ok (Articles_body arts (Some pg)))),
          Settle 1 (Stats_response r)] world0)) = Ready
     \<and> articles (ui (run [Mount,
          Settle 0 (Articles_response (Status_ok (Articles_body arts (Some pg)))),
          Settle 1 (Stats_response r)] world0)) = arts"
proof -
  have general: "map_of (pending w) rid = Some (Await_stats k) \<longrightarrow>
        stats (ui (settle rid (Stats_response r) w)) = stats (ui w)
      \<and> listing (ui (settle rid (Stats_response r) w)) = listing (ui w)
      \<and> categories (ui (settle rid (Stats_response r) w)) = categories (ui w)"
    using assms(1)
    by (simp add: settle_stats stats_after_fetchStats listing_after_fetchStats
        categories_after_fetchStats ui_fetchStats_settled_failed ui_remove_task)
  have detached: "map_of (pending w) rid = Some (Await_stats Detached) \<longrightarrow>
        ui (settle rid (Stats_response r) w) = ui w
      \<and> alerts (settle rid (Stats_response r) w) = alerts w"
    using assms(1)
    by (simp add: settle_stats after_fetchStats_def ui_fetchStats_settled_failed
        alerts_fetchStats_settled ui_remove_task remove_task_def)
  have cats: "map_of (pending w) rid = Some Await_categories \<longrightarrow>
        ui (settle rid (Categories_response r') w) = ui w
      \<and> alerts (settle rid (Categories_response r') w) = alerts w"
    using assms(2)
    by (simp add: settle_categories ui_fetchCategories_settled_failed
        alerts_fetchCategories_settled ui_remove_task remove_task_def)
  have mounted: "status_of (ui (run [Mount, Settle 1 (Stats_response r),
          Settle 0 (Articles_response (Status_ok (Articles_body arts (Some pg))))] world0)) = Ready
     \<and> articles (ui (run [Mount, Settle 1 (Stats_response r),
          Settle 0 (Articles_response (Status_ok (Articles_body arts (Some pg))))] world0)) = arts
     \<and> status_of (ui (run [Mount,
          Settle 0 (Articles_response (Status_ok (Articles_body arts (Some pg)))),
          Settle 1 (Stats_response r)] world0)) = Ready
     \<and> articles (ui (run [Mount,
          Settle 0 (Articles_response (Status_ok (Articles_body arts (Some pg)))),
          Settle 1 (Stats_response r)] world0)) = arts"
    using assms(1) by (cases r) (simp_all add: model_defs status_of_def)
  from general detached cats mounted show ?thesis by blast
qed

theorem auxiliary_failure_is_silent_witness:
  "failed (Rejected :: Stats outcome)
   \<and> failed (Status_not_ok (Some ''nede'') :: string list outcome)
   \<and> map_of (pending (step Mount world0)) 1 = Some (Await_stats Detached)
   \<and> ui (settle 1 (Stats_response Rejected) (step Mount world0)) = ui (step Mount world0)
   \<and> status_of (ui (run [Mount, Settle 1 (Stats_response Rejected),
        Settle 0 (Articles_response (Status_ok
          (Articles_body [example_article ''a1'' ''helse''] (Some (Pagination 1 3)))))] world0))
     = Ready"
proof -
  have h1: "failed (Rejected :: Stats outcome)"
    and h2: "failed (Status_not_ok (Some ''nede'') :: string list outcome)"
    by simp_all
  have h3: "map_of (pending (step Mount world0)) 1 = Some (Await_stats Detached)"
    by (simp add: model_defs)
  show ?thesis
    using h1 h2 h3
      auxiliary_failure_is_silent [OF h1 h2, of "step Mount world0" 1 Detached
        "[example_article ''a1'' ''helse'']" "Pagination 1 3"]
    by blast
qed

section \<open>Refresh\<close>

text \<open>
  Claim C4, as the code has it. \<open>handleRefresh\<close> passes to the reload the \<open>currentPage\<close>
  and \<open>selectedCategory\<close> of its closure, which are those of the render in which it was
  invoked. Whatever events arrive between the invocation and the success of the POST
  (category and page changes and renders included), the call made when the POST succeeds
  is the article listing of the page and category rendered in the state \<open>w\<close> of the
  invocation.
\<close>

theorem refresh_reloads_with_state_at_invocation:
  assumes "list_all (\<lambda>e. \<not> settles (length (issued w)) e) es"
  shows "issued (step (Settle (length (issued w)) (Refresh_response (Status_ok n)))
                  (run es (handleRefresh w)))
       = issued (run es (handleRefresh w))
         @ [GetArticles (currentPage (rendered w)) ''12''
              (category_param (selectedCategory (rendered w)))]"
proof -
  let ?rid = "length (issued w)"
  let ?t = "Await_refresh (currentPage (rendered w)) (selectedCategory (rendered w))"
  have "map_of (pending (handleRefresh w)) ?rid = Some ?t"
    and "?rid < length (issued (handleRefresh w))"
    by (simp_all add: handleRefresh_def issue_def)
  with assms have "map_of (pending (run es (handleRefresh w))) ?rid = Some ?t"
    by (rule run_keeps_task)
  then show ?thesis
    by (simp add: settle_refresh handleRefresh_settled_def fetchArticles_def issue_def
        remove_task_def)
qed

text \<open>
  The witness: statistics and categories arrive and are rendered, the user clicks the
  refresh button of the statistics row (the POST is the call with index 3) and then picks
  "helse", which is rendered. The POST succeeds and the reload asks for all categories.
\<close>

theorem refresh_reloads_with_state_at_invocation_witness:
  "step Click_refresh_stats (run
        [Mount,
         Settle 1 (Stats_response (Status_ok
           \<lparr>totalArticles = 1, totalSources = 1, activeSources = 1, categoryCounts = []\<rparr>)),
         Settle 2 (Categories_response (Status_ok [''helse''])), Render] world0)
     = handleRefresh (run
        [Mount,
         Settle 1 (Stats_response (Status_ok
           \<lparr>totalArticles = 1, totalSources = 1, activeSources = 1, categoryCounts = []\<rparr>)),
         Settle 2 (Categories_response (Status_ok [''helse''])), Render] world0)
   \<and> list_all (\<lambda>e. \<not> settles (length (issued (run
        [Mount,
         Settle 1 (Stats_response (Status_ok
           \<lparr>totalArticles = 1, totalSources = 1, activeSources = 1, categoryCounts = []\<rparr>)),
         Settle 2 (Categories_response (Status_ok [''helse''])), Render] world0))) e)
      [Select_category ''helse'', Render]
   \<and> selectedCategory (rendered (run [Select_category ''helse'', Render]
        (handleRefresh (run
          [Mount,
           Settle 1 (Stats_response (Status_ok
             \<lparr>totalArticles = 1, totalSources = 1, activeSources = 1, categoryCounts = []\<rparr>)),
           Settle 2 (Categories_response (Status_ok [''helse''])), Render] world0))))
     = ''helse''
   \<and> issued (step (Settle 3 (Refresh_response (Status_ok 5)))
        (run [Select_category ''helse'', Render]
          (handleRefresh (run
            [Mount,
             Settle 1 (Stats_response (Status_ok
               \<lparr>totalArticles = 1, totalSources = 1, activeSources = 1, categoryCounts = []\<rparr>)),
             Settle 2 (Categories_response (Status_ok [''helse''])), Render] world0))))
     = [GetArticles 1 ''12'' None, GetStats, GetCategories, PostRefresh,
        GetArticles 1 ''12'' (Some ''helse''), GetArticles 1 ''12'' None]"
proof -
  let ?w = "run
        [Mount,
         Settle 1 (Stats_response (Status_ok
           \<lparr>totalArticles = 1, totalSources = 1, activeSources = 1, categoryCounts = []\<rparr>)),
         Settle 2 (Categories_response (Status_ok [''helse''])), Render] world0"
  have click: "step Click_refresh_stats ?w = handleRefresh ?w"
    by (simp add: model_defs)
  have h: "list_all (\<lambda>e. \<not> settles (length (issued ?w)) e) [Select_category ''helse'', Render]"
    by simp
  have len: "length (issued ?w) = 3"
    by (simp add: model_defs)
  have sel: "selectedCategory (rendered (run [Select_category ''helse'', Render]
      (handleRefresh ?w))) = ''helse''"
    by (simp add: model_defs)
  have before: "issued (run [Select_category ''helse'', Render] (handleRefresh ?w)) =
      [GetArticles 1 ''12'' None, GetStats, GetCategories, PostRefresh,
       GetArticles 1 ''12'' (Some ''helse'')]"
    by (simp add: model_defs)
  have at_click: "currentPage (rendered ?w) = 1" "selectedCategory (rendered ?w) = []"
    by (simp_all add: model_defs)
  from refresh_reloads_with_state_at_invocation [OF h, of 5]
  have "issued (step (Settle 3 (Refresh_response (Status_ok 5)))
        (run [Select_category ''helse'', Render] (handleRefresh ?w)))
     = [GetArticles 1 ''12'' None, GetStats, GetCategories, PostRefresh,
        GetArticles 1 ''12'' (Some ''helse''), GetArticles 1 ''12'' None]"
    by (simp only: len before at_click) (simp add: category_param_def)
  with click h sel show ?thesis by blast
qed

text \<open>
  The claim as stated asks for the state at the time the POST completes. The page is
  mounted, statistics and categories arrive and are rendered, the user clicks refresh
  and, while the POST is outstanding, picks the category "helse", which is rendered.
  When the POST succeeds the selected category is "helse", in the state and on the
  screen, and the reload (the call with index 5) asks for all categories.
\<close>

theorem refresh_reload_ignores_later_selection:
  "issued (run
      [Mount,
       Settle 1 (Stats_response (Status_ok
         \<lparr>totalArticles = 1, totalSources = 1, activeSources = 1, categoryCounts = []\<rparr>)),
       Settle 2 (Categories_response (Status_ok [''helse''])),
       Render,
       Click_refresh_stats,
       Render,
       Select_category ''helse'',
       Render,
       Settle 3 (Refresh_response (Status_ok 5))]
      world0) ! 5 = GetArticles 1 ''12'' None
   \<and> selectedCategory (ui (run
      [Mount,
       Settle 1 (Stats_response (Status_ok
         \<lparr>totalArticles = 1, totalSources = 1, activeSources = 1, categoryCounts = []\<rparr>)),
       Settle 2 (Categories_response (Status_ok [''helse''])),
       Render,
       Click_refresh_stats,
       Render,
       Select_category ''helse'',
       Render,
       Settle 3 (Refresh_response (Status_ok 5))]
      world0)) = ''helse''
   \<and> selectedCategory (rendered (run
      [Mount,
       Settle 1 (Stats_response (Status_ok
         \<lparr>totalArticles = 1, totalSources = 1, activeSources = 1, categoryCounts = []\<rparr>)),
       Settle 2 (Categories_response (Status_ok [''helse''])),
       Render,
       Click_refresh_stats,
       Render,
       Select_category ''helse'',
       Render,
       Settle 3 (Refresh_response (Status_ok 5))]
      world0)) = ''helse''"
  by (simp add: model_defs)

text \<open>
  Claim C2, as the code has it. \<open>handleRefresh\<close> does not test \<open>refreshing\<close>; the flag
  disables the two refresh buttons of the render, and that is the guard. In every state
  the page reaches from its initial state by a sequence of events in which every refresh
  click sees the flag: at most one invocation of \<open>handleRefresh\<close> is outstanding; the
  flag is set exactly while one is; a click on either refresh button that arrives while
  one is outstanding, and sees the flag, changes nothing and so makes no call; and the
  number of POSTs made so far is the number of finished refreshes (one alert each) plus
  the outstanding one, so every refresh, however often the buttons are clicked during
  it, makes exactly one POST.
\<close>

theorem refresh_clicks_coalesce:
  assumes "clicks_see_flag es world0"
  shows
    "refreshes_outstanding (run es world0) \<le> 1
     \<and> (refreshing (ui (run es world0)) \<longleftrightarrow> refreshes_outstanding (run es world0) = 1)
     \<and> posts_issued (run es world0) =
         length (alerts (run es world0)) + refreshes_outstanding (run es world0)
     \<and> (0 < refreshes_outstanding (run es world0)
          \<and> (refreshing (ui (run es world0)) \<longrightarrow> refreshing (rendered (run es world0)))
        \<longrightarrow> step Click_refresh_stats (run es world0) = run es world0
          \<and> step Click_refresh_empty (run es world0) = run es world0)"
  using inv_run [OF inv_world0 assms]
  by (auto simp add: world_inv_def split: if_splits)

text \<open>
  The witness: the first load fails, the empty listing with its refresh button is
  rendered, the user clicks the button, the disabled button is rendered, and the user
  clicks twice more. One refresh is outstanding and one POST was made.
\<close>

theorem refresh_clicks_coalesce_witness:
  "clicks_see_flag
      [Mount, Settle 0 (Articles_response Rejected), Render, Click_refresh_empty, Render,
       Click_refresh_empty, Click_refresh_empty] world0
   \<and> refreshes_outstanding (run
      [Mount, Settle 0 (Articles_response Rejected), Render, Click_refresh_empty, Render,
       Click_refresh_empty, Click_refresh_empty] world0) = 1
   \<and> posts_issued (run
      [Mount, Settle 0 (Articles_response Rejected), Render, Click_refresh_empty, Render,
       Click_refresh_empty, Click_refresh_empty] world0) = 1
   \<and> issued (run
      [Mount, Settle 0 (Articles_response Rejected), Render, Click_refresh_empty, Render,
       Click_refresh_empty, Click_refresh_empty] world0)
     = [GetArticles 1 ''12'' None, GetStats, GetCategories, PostRefresh]
   \<and> step Click_refresh_empty (run
      [Mount, Settle 0 (Articles_response Rejected), Render, Click_refresh_empty, Render,
       Click_refresh_empty, Click_refresh_empty] world0)
     = run
      [Mount, Settle 0 (Articles_response Rejected), Render, Click_refresh_empty, Render,
       Click_refresh_empty, Click_refresh_empty] world0"
proof -
  let ?es = "[Mount, Settle 0 (Articles_response Rejected), Render, Click_refresh_empty,
       Render, Click_refresh_empty, Click_refresh_empty]"
  have h: "clicks_see_flag ?es world0"
    by (simp add: model_defs)
  have one: "refreshes_outstanding (run ?es world0) = 1"
    by (simp add: model_defs refreshes_outstanding_def)
  have log: "issued (run ?es world0)
      = [GetArticles 1 ''12'' None, GetStats, GetCategories, PostRefresh]"
    by (simp add: model_defs)
  have posts: "posts_issued (run ?es world0) = 1"
    unfolding posts_issued_def log by simp
  have seen: "refreshing (rendered (run ?es world0))"
    by (simp add: model_defs)
  from one seen refresh_clicks_coalesce [OF h]
  have noop: "step Click_refresh_empty (run ?es world0) = run ?es world0"
    by simp
  from h one posts log noop show ?thesis by blast
qed

text \<open>
  The claim as stated has a second refresh issued during the first make no call. The
  statistics arrive and the row with its refresh button is rendered; two clicks on the
  button arrive before React commits the render that disables it. Both reach
  \<open>handleRefresh\<close>: two refreshes are outstanding and the log holds two POSTs.
\<close>

theorem double_click_posts_twice:
  "issued (run
      [Mount,
       Settle 1 (Stats_response (Status_ok
         \<lparr>totalArticles = 1, totalSources = 1, activeSources = 1, categoryCounts = []\<rparr>)),
       Render,
       Click_refresh_stats,
       Click_refresh_stats]
      world0) = [GetArticles 1 ''12'' None, GetStats, GetCategories, PostRefresh, PostRefresh]
   \<and> refreshes_outstanding (run
      [Mount,
       Settle 1 (Stats_response (Status_ok
         \<lparr>totalArticles = 1, totalSources = 1, activeSources = 1, categoryCounts = []\<rparr>)),
       Render,
       Click_refresh_stats,
       Click_refresh_stats]
      world0) = 2
   \<and> posts_issued (run
      [Mount,
       Settle 1 (Stats_response (Status_ok
         \<lparr>totalArticles = 1, totalSources = 1, activeSources = 1, categoryCounts = []\<rparr>)),
       Render,
       Click_refresh_stats,
       Click_refresh_stats]
      world0) = 2"
  by (simp add: model_defs refreshes_outstanding_def posts_issued_def)

section \<open>The image of an article card\<close>

lemma first_error:
  "\<not> truthy (fallbackAttempted e) \<Longrightarrow>
   handleImageError c e =
     e\<lparr>fallbackAttempted := Some ''true'', src := fallback_src,
       loads := loads e @ [fallback_src]\<rparr>"
  by (simp add: handleImageError_def)

lemma fallback_has_class: "''image-fallback'' \<in> set (classList (fallback_element c))"
  by (simp add: fallback_element_def)

lemma query_append_fallback:
  "querySelector_image_fallback (cs @ [fallback_element c]) \<noteq> None"
  using fallback_has_class [of c]
  by (auto simp add: querySelector_image_fallback_def find_None_iff)

lemma query_None_placeholders:
  "querySelector_image_fallback cs = None \<longleftrightarrow>
   filter (\<lambda>d. ''image-fallback'' \<in> set (classList d)) cs = []"
  by (auto simp add: querySelector_image_fallback_def find_None_iff filter_empty_conv)

lemma later_error_fixed:
  assumes "truthy (fallbackAttempted e)"
  shows "handleImageError c' (handleImageError c e) = handleImageError c e"
proof (cases "parentElement e")
  case None
  with assms show ?thesis by (simp add: handleImageError_def)
next
  case (Some cs)
  show ?thesis
  proof (cases "querySelector_image_fallback cs = None")
    case True
    with assms Some query_append_fallback [of cs c] show ?thesis
      by (simp add: handleImageError_def Let_def)
  next
    case False
    with assms Some show ?thesis by (simp add: handleImageError_def Let_def)
  qed
qed

lemma attempted_after_error: "truthy (fallbackAttempted (handleImageError c e))"
  by (simp add: handleImageError_def truthy_def Let_def split: option.splits)

lemma errors_fixed:
  "truthy (fallbackAttempted e) \<Longrightarrow> image_errors (Suc n) c e = handleImageError c e"
proof (induction n arbitrary: e)
  case 0
  then show ?case by simp
next
  case (Suc n)
  have "image_errors (Suc (Suc n)) c e = image_errors (Suc n) c (handleImageError c e)"
    by simp
  also have "\<dots> = handleImageError c (handleImageError c e)"
    by (rule Suc.IH) (rule attempted_after_error)
  also have "\<dots> = handleImageError c e"
    using Suc.prems by (rule later_error_fixed)
  finally show ?case .
qed

lemma state_hidden:
  "truthy (fallbackAttempted e) \<Longrightarrow> imageLoadState (handleImageError c e) = FallbackPlaceholder"
  by (simp add: handleImageError_def imageLoadState_def Let_def split: option.splits)

lemma loads_hidden: "truthy (fallbackAttempted e) \<Longrightarrow> loads (handleImageError c e) = loads e"
  by (simp add: handleImageError_def Let_def split: option.splits)

lemma placeholders_first:
  "\<not> truthy (fallbackAttempted e) \<Longrightarrow> placeholders (handleImageError c e) = placeholders e"
  by (simp add: first_error placeholders_def)

lemma placeholders_hidden:
  "truthy (fallbackAttempted e) \<Longrightarrow>
   placeholders (handleImageError c e) =
     (case parentElement e of None \<Rightarrow> 0 | Some cs \<Rightarrow> max 1 (placeholders e))"
  using fallback_has_class [of c]
  by (auto simp add: handleImageError_def placeholders_def Let_def query_None_placeholders
      max_def Suc_le_eq split: option.splits)

lemma two_errors:
  assumes "\<not> truthy (fallbackAttempted e)"
  shows "image_errors (Suc (Suc n)) c e = handleImageError c (handleImageError c e)"
  using errors_fixed [OF attempted_after_error, of n c c e] by simp

text \<open>
  Claim C6. An image that is in stage Primary is, after \<open>n\<close> error events, in stage
  Primary for \<open>n = 0\<close>, FallbackImage for \<open>n = 1\<close> and FallbackPlaceholder for every
  \<open>n\<close> from 2 on. The fallback image is assigned to \<open>src\<close> once, at the first error, and
  never again. No event moves an image to an earlier stage.
\<close>

theorem image_fallback_stages:
  assumes "imageLoadState e = Primary"
  shows
    "imageLoadState (image_errors n c e) =
       (if n = 0 then Primary else if n = 1 then FallbackImage else FallbackPlaceholder)
     \<and> loads (image_errors n c e) = loads e @ (if n = 0 then [] else [fallback_src])
     \<and> stage_rank (imageLoadState (image_errors n c e))
         \<le> stage_rank (imageLoadState (image_errors (Suc n) c e))"
proof -
  from assms have fresh: "\<not> truthy (fallbackAttempted e)" and shown: "display e \<noteq> ''none''"
    by (auto simp add: imageLoadState_def split: if_splits)
  let ?e1 = "handleImageError c e"
  have a1: "truthy (fallbackAttempted ?e1)"
    by (rule attempted_after_error)
  have s1: "imageLoadState ?e1 = FallbackImage"
    using fresh shown by (simp add: first_error imageLoadState_def truthy_def)
  have l1: "loads ?e1 = loads e @ [fallback_src]"
    using fresh by (simp add: first_error)
  have later: "image_errors (Suc (Suc m)) c e = handleImageError c ?e1" for m
    using fresh by (rule two_errors)
  show ?thesis
  proof (cases n)
    case 0
    with assms s1 show ?thesis by simp
  next
    case (Suc m)
    show ?thesis
    proof (cases m)
      case 0
      with Suc s1 l1 a1 show ?thesis
        by (simp add: state_hidden)
    next
      case (Suc j)
      with \<open>n = Suc m\<close> have n: "n = Suc (Suc j)" by simp
      show ?thesis
        unfolding n later
        using a1 l1 by (simp add: state_hidden loads_hidden)
    qed
  qed
qed

theorem image_fallback_stages_witness:
  "imageLoadState (rendered_img ''https://example.org/a.png'' []) = Primary
   \<and> imageLoadState (image_errors 1 ''krig'' (rendered_img ''https://example.org/a.png'' []))
     = FallbackImage
   \<and> imageLoadState (image_errors 2 ''krig'' (rendered_img ''https://example.org/a.png'' []))
     = FallbackPlaceholder
   \<and> imageLoadState (image_errors 7 ''krig'' (rendered_img ''https://example.org/a.png'' []))
     = FallbackPlaceholder
   \<and> loads (image_errors 7 ''krig'' (rendered_img ''https://example.org/a.png'' []))
     = [''https://example.org/a.png'', fallback_src]"
proof -
  let ?e = "rendered_img ''https://example.org/a.png'' []"
  have h: "imageLoadState ?e = Primary"
    by (simp add: rendered_img_def imageLoadState_def truthy_def)
  have l: "loads ?e = [''https://example.org/a.png'']"
    by (simp add: rendered_img_def)
  show ?thesis
    using h l image_fallback_stages [OF h, of 1 "''krig''"]
      image_fallback_stages [OF h, of 2 "''krig''"]
      image_fallback_stages [OF h, of 7 "''krig''"]
    by simp
qed

text \<open>
  Claim C10. Once the image has made its fallback attempt, the next error event puts it
  in the placeholder stage, and every further error event, for whatever category it is
  reported, leaves the element and its parent exactly as that event left them. The
  parent of a rendered image holds, after any number of error events, the placeholders
  it had before and at most one more, which is added only when it had none: none is
  added before the second event.
\<close>

theorem image_placeholder_idempotent:
  assumes "truthy (fallbackAttempted e)"
  shows
    "handleImageError c' (handleImageError c e) = handleImageError c e
     \<and> image_errors (Suc n) c e = handleImageError c e
     \<and> placeholders (image_errors n c (rendered_img u cs)) =
         (if n < 2 then placeholders (rendered_img u cs)
          else max 1 (placeholders (rendered_img u cs)))"
proof -
  let ?r = "rendered_img u cs"
  have fresh: "\<not> truthy (fallbackAttempted ?r)"
    by (simp add: rendered_img_def truthy_def)
  have parent1: "parentElement (handleImageError c ?r) = Some cs"
    by (simp add: first_error [OF fresh]) (simp add: rendered_img_def)
  have count: "placeholders (image_errors n c ?r) =
         (if n < 2 then placeholders ?r else max 1 (placeholders ?r))"
  proof (cases n)
    case 0
    then show ?thesis by simp
  next
    case (Suc m)
    show ?thesis
    proof (cases m)
      case 0
      with Suc fresh show ?thesis by (simp add: placeholders_first)
    next
      case (Suc j)
      with \<open>n = Suc m\<close> have n: "n = Suc (Suc j)" by simp
      show ?thesis
        unfolding n two_errors [OF fresh]
        using parent1
        by (simp add: placeholders_hidden [OF attempted_after_error] placeholders_first [OF fresh])
    qed
  qed
  from assms count show ?thesis
    by (simp add: later_error_fixed errors_fixed del: image_errors.simps)
qed

theorem image_placeholder_idempotent_witness:
  "truthy (fallbackAttempted (handleImageError ''krig'' (rendered_img ''u'' [])))
   \<and> image_errors 5 ''krig'' (handleImageError ''krig'' (rendered_img ''u'' []))
     = handleImageError ''krig'' (handleImageError ''krig'' (rendered_img ''u'' []))
   \<and> placeholders (image_errors 6 ''krig'' (rendered_img ''u'' [])) = 1"
proof -
  let ?e = "handleImageError ''krig'' (rendered_img ''u'' [])"
  have h: "truthy (fallbackAttempted ?e)"
    by (rule attempted_after_error)
  have p: "placeholders (rendered_img ''u'' []) = 0"
    by (simp add: rendered_img_def placeholders_def)
  have fixed: "image_errors 5 ''krig'' ?e = handleImageError ''krig'' ?e"
    using image_placeholder_idempotent [OF h, where c = "''krig''" and n = 4] by simp
  have one: "placeholders (image_errors 6 ''krig'' (rendered_img ''u'' [])) = 1"
    using p image_placeholder_idempotent [OF h, where n = 6 and c = "''krig''"
        and u = "''u''" and cs = "[]"]
    by simp
  from h fixed one show ?thesis by blast
qed


end
